theory Spec2Isabelle
  imports Main
begin

section \<open>The serial bridge of the centrifuge controller\<close>

text \<open>
  A shallow embedding of \<^verbatim>\<open>serial_controller.py\<close>: the status record, the line
  parser, the event dispatch, the write path, the disconnect handling and the two
  background loops of \<^verbatim>\<open>SerialController\<close>.

  The controller object is a record that every method takes and returns. A method that can
  raise returns a pair: \<open>Inl e\<close> (the exception) or \<open>Inr v\<close> (the value returned), and the
  controller as it stands at that moment, since the writes made before an exception stay.
  Locks are not modelled: each function is one thread's sequential run. Logging has no
  effect on the controller and is left out. The port object is the library's: its
  \<^verbatim>\<open>close()\<close> is taken to close the port, and what its reads and writes do is given to
  the loops and to \<^verbatim>\<open>_send\<close> from outside.
\<close>

subsection \<open>Data types\<close>

datatype SystemState = IDLE | RAMPING_UP | RUNNING | RAMPING_DOWN | ERROR | DISCONNECTED

text \<open>\<^verbatim>\<open>SystemState(value)\<close> on a string: the member with that value, or \<^verbatim>\<open>ValueError\<close>
  (here \<open>None\<close>).\<close>

definition state_of_string :: "string \<Rightarrow> SystemState option" where
  "state_of_string s =
     (if s = ''IDLE'' then Some IDLE
      else if s = ''RAMPING_UP'' then Some RAMPING_UP
      else if s = ''RUNNING'' then Some RUNNING
      else if s = ''RAMPING_DOWN'' then Some RAMPING_DOWN
      else if s = ''ERROR'' then Some ERROR
      else if s = ''DISCONNECTED'' then Some DISCONNECTED
      else None)"

text \<open>Clock readings (\<^verbatim>\<open>time.time()\<close>), in any fixed unit.\<close>

type_synonym timestamp = int

record ArduinoStatus =
  state :: SystemState
  current_rpm :: int
  target_rpm :: int
  pwm :: int
  lid_closed :: bool
  level :: bool
  running :: bool
  remaining_ms :: int
  error_reason :: string
  last_updated :: timestamp

text \<open>\<^verbatim>\<open>ArduinoStatus()\<close>: the dataclass defaults; \<open>now\<close> is what the default factory of
  \<^verbatim>\<open>last_updated\<close> reads from the clock.\<close>

definition new_status :: "timestamp \<Rightarrow> ArduinoStatus" where
  "new_status now =
     \<lparr> state = DISCONNECTED, current_rpm = 0, target_rpm = 0, pwm = 0,
       lid_closed = False, level = False, running = False, remaining_ms = 0,
       error_reason = [], last_updated = now \<rparr>"

definition remaining_sec :: "ArduinoStatus \<Rightarrow> int" where
  "remaining_sec s = remaining_ms s div 1000"

definition status_is_connected :: "ArduinoStatus \<Rightarrow> bool" where
  "status_is_connected s = (state s \<noteq> DISCONNECTED)"

subsection \<open>Exceptions\<close>

text \<open>
  The exception classes that the code names or that its calls raise. \<open>SystemExit\<close>,
  \<open>KeyboardInterrupt\<close> and \<open>GeneratorExit\<close> derive from \<^verbatim>\<open>BaseException\<close> only, so
  an \<^verbatim>\<open>except Exception\<close> clause lets them pass.
\<close>

datatype pyexc =
    SerialException | JSONDecodeError | KeyError | ValueError | TypeError
  | OverflowError | AttributeError | RecursionError | RuntimeError
  | SystemExit | KeyboardInterrupt | GeneratorExit

definition is_Exception :: "pyexc \<Rightarrow> bool" where
  "is_Exception e = (e \<noteq> SystemExit \<and> e \<noteq> KeyboardInterrupt \<and> e \<noteq> GeneratorExit)"

subsection \<open>Decoded JSON values\<close>

text \<open>
  What \<^verbatim>\<open>json.loads\<close> returns. A finite float is \<open>m * 2^e\<close> (every IEEE double is);
  \<^verbatim>\<open>NaN\<close> and the infinities are values of their own. A dict is an association list
  read with \<open>map_of\<close>.
\<close>

datatype pyfloat = Finite int int | NaN | Infinity bool

datatype pyval =
    PNone | PBool bool | PInt int | PFloat pyfloat | PStr string
  | PList "pyval list" | PDict "(string \<times> pyval) list"

text \<open>
  The library functions the parser calls are parameters of the model: \<^verbatim>\<open>json.loads\<close>
  (it returns a value or raises) and the built-in \<^verbatim>\<open>int\<close> on a string (\<open>None\<close> is
  \<^verbatim>\<open>ValueError\<close>).
\<close>

record env =
  json_loads :: "string \<Rightarrow> pyexc + pyval"
  int_of_str :: "string \<Rightarrow> int option"

text \<open>\<^verbatim>\<open>dict.get(key, default)\<close>.\<close>

definition dict_get :: "(string \<times> pyval) list \<Rightarrow> string \<Rightarrow> pyval \<Rightarrow> pyval" where
  "dict_get d k dflt = (case map_of d k of None \<Rightarrow> dflt | Some v \<Rightarrow> v)"

text \<open>\<^verbatim>\<open>int(x)\<close> of a finite float truncates towards zero.\<close>

definition trunc_float :: "int \<Rightarrow> int \<Rightarrow> int" where
  "trunc_float m e =
     (if 0 \<le> e then m * 2 ^ nat e
      else if 0 \<le> m then m div 2 ^ nat (- e)
      else - ((- m) div 2 ^ nat (- e)))"

fun py_int :: "env \<Rightarrow> pyval \<Rightarrow> pyexc + int" where
  "py_int E PNone = Inl TypeError"
| "py_int E (PBool b) = Inr (if b then 1 else 0)"
| "py_int E (PInt n) = Inr n"
| "py_int E (PFloat (Finite m e)) = Inr (trunc_float m e)"
| "py_int E (PFloat NaN) = Inl ValueError"
| "py_int E (PFloat (Infinity neg)) = Inl OverflowError"
| "py_int E (PStr s) = (case int_of_str E s of None \<Rightarrow> Inl ValueError | Some n \<Rightarrow> Inr n)"
| "py_int E (PList xs) = Inl TypeError"
| "py_int E (PDict d) = Inl TypeError"

fun py_bool :: "pyval \<Rightarrow> bool" where
  "py_bool PNone = False"
| "py_bool (PBool b) = b"
| "py_bool (PInt n) = (n \<noteq> 0)"
| "py_bool (PFloat (Finite m e)) = (m \<noteq> 0)"
| "py_bool (PFloat NaN) = True"
| "py_bool (PFloat (Infinity neg)) = True"
| "py_bool (PStr s) = (s \<noteq> [])"
| "py_bool (PList xs) = (xs \<noteq> [])"
| "py_bool (PDict d) = (d \<noteq> [])"

text \<open>\<^verbatim>\<open>SystemState(v)\<close> on a decoded value: only a string can equal a member's value.\<close>

fun state_of_pyval :: "pyval \<Rightarrow> SystemState option" where
  "state_of_pyval (PStr s) = state_of_string s"
| "state_of_pyval v = None"

subsection \<open>Observers and events\<close>

text \<open>
  An event is one call of a registered callback with its arguments. An observer is known
  by what a call of it does (it returns or it raises) and by whether the callable has a
  \<^verbatim>\<open>__name__\<close> (functions, lambdas and bound methods do; a \<^verbatim>\<open>functools.partial\<close> or an
  instance with \<^verbatim>\<open>__call__\<close> does not). Observers that call back into the controller
  are outside the model.
\<close>

datatype event =
    StatusUpdate ArduinoStatus
  | StateChange SystemState SystemState
  | ErrorEvent string
  | Complete

datatype cb_result = Returns | Raises pyexc

record observer =
  has_name :: bool
  behaviour :: "event \<Rightarrow> cb_result"

subsection \<open>The controller\<close>

text \<open>The serial port object: whether it is open, the commands written to it, and how
  often \<^verbatim>\<open>close()\<close> was called on it.\<close>

record link =
  is_open :: bool
  written :: "string list"
  close_calls :: nat

definition close :: "link \<Rightarrow> link" where
  "close l = l\<lparr> is_open := False, close_calls := Suc (close_calls l) \<rparr>"

text \<open>The fields of \<^verbatim>\<open>SerialController\<close>. \<open>trace\<close> is not a field of the class: it lists
  the observer calls made so far, oldest first.\<close>

record ctrl =
  port :: "string option"
  auto_detect :: bool
  on_status_update :: "observer option"
  on_state_change :: "observer option"
  on_error :: "observer option"
  on_complete :: "observer option"
  serial :: "link option"
  status :: ArduinoStatus
  stop_event :: bool
  previous_state :: SystemState
  trace :: "event list"

type_synonym 'a run = "(pyexc + 'a) \<times> ctrl"

text \<open>\<^verbatim>\<open>__init__\<close>.\<close>

definition init :: "timestamp \<Rightarrow> string option \<Rightarrow> bool \<Rightarrow> observer option \<Rightarrow> observer option
    \<Rightarrow> observer option \<Rightarrow> observer option \<Rightarrow> ctrl" where
  "init now p ad su sc oe oc =
     \<lparr> port = p, auto_detect = ad,
       on_status_update = su, on_state_change = sc, on_error = oe, on_complete = oc,
       serial = None, status = new_status now, stop_event = False,
       previous_state = DISCONNECTED, trace = [] \<rparr>"

definition is_connected :: "ctrl \<Rightarrow> bool" where
  "is_connected c = (case serial c of None \<Rightarrow> False | Some l \<Rightarrow> is_open l)"

definition get_status :: "ctrl \<Rightarrow> ArduinoStatus" where
  "get_status c = status c"

subsection \<open>Event dispatch\<close>

text \<open>
  \<^verbatim>\<open>_fire_callback(cb, *args)\<close>. With no callback it returns. Otherwise the callback is
  called (the event joins the trace). An exception of class \<^verbatim>\<open>Exception\<close> is caught;
  the handler then formats \<^verbatim>\<open>cb.__name__\<close> into the log message, which raises
  \<^verbatim>\<open>AttributeError\<close> when the callable has no such attribute. Any other exception is
  not caught.
\<close>

definition fire_callback :: "observer option \<Rightarrow> event \<Rightarrow> ctrl \<Rightarrow> unit run" where
  "fire_callback cb ev c =
     (case cb of
        None \<Rightarrow> (Inr (), c)
      | Some ob \<Rightarrow>
          (let c' = c\<lparr> trace := trace c @ [ev] \<rparr> in
           case behaviour ob ev of
             Returns \<Rightarrow> (Inr (), c')
           | Raises e \<Rightarrow>
               if is_Exception e
               then (if has_name ob then (Inr (), c') else (Inl AttributeError, c'))
               else (Inl e, c')))"

text \<open>Sequencing: the second step runs only when the first returned.\<close>

definition and_then :: "unit run \<Rightarrow> (ctrl \<Rightarrow> unit run) \<Rightarrow> unit run" where
  "and_then r f = (case r of (Inl e, c) \<Rightarrow> (Inl e, c) | (Inr u, c) \<Rightarrow> f c)"

subsection \<open>State-change detection\<close>

text \<open>\<^verbatim>\<open>_check_state_change\<close>: \<^verbatim>\<open>_previous_state\<close> is assigned after the callback
  returned, so not when the dispatch raised.\<close>

definition check_state_change :: "ctrl \<Rightarrow> unit run" where
  "check_state_change c =
     (let current = state (status c) in
      if current \<noteq> previous_state c
      then and_then (fire_callback (on_state_change c) (StateChange (previous_state c) current) c)
             (\<lambda>c'. (Inr (), c'\<lparr> previous_state := current \<rparr>))
      else (Inr (), c))"

subsection \<open>The JSON status packet\<close>

text \<open>The \<^verbatim>\<open>state\<close> key: \<^verbatim>\<open>SystemState(data.get("state", "IDLE"))\<close>, and \<^verbatim>\<open>IDLE\<close> on
  \<^verbatim>\<open>ValueError\<close>.\<close>

definition json_state :: "(string \<times> pyval) list \<Rightarrow> SystemState" where
  "json_state d =
     (case state_of_pyval (dict_get d ''state'' (PStr ''IDLE'')) of
        None \<Rightarrow> IDLE
      | Some s \<Rightarrow> s)"

text \<open>
  The assignments made under the status lock in \<^verbatim>\<open>_parse_status_json\<close>, in the order
  of the source. An \<^verbatim>\<open>int(...)\<close> that raises ends the block with the fields written so
  far.
\<close>

definition write_json_fields ::
    "env \<Rightarrow> timestamp \<Rightarrow> (string \<times> pyval) list \<Rightarrow> ArduinoStatus \<Rightarrow> (pyexc + unit) \<times> ArduinoStatus" where
  "write_json_fields E now d st0 =
     (let st1 = st0\<lparr> state := json_state d \<rparr> in
      (case py_int E (dict_get d ''currentRPM'' (PInt 0)) of
         Inl e \<Rightarrow> (Inl e, st1)
       | Inr cur \<Rightarrow>
      (let st2 = st1\<lparr> current_rpm := cur \<rparr> in
      (case py_int E (dict_get d ''targetRPM'' (PInt 0)) of
         Inl e \<Rightarrow> (Inl e, st2)
       | Inr tgt \<Rightarrow>
      (let st3 = st2\<lparr> target_rpm := tgt \<rparr> in
      (case py_int E (dict_get d ''pwm'' (PInt 0)) of
         Inl e \<Rightarrow> (Inl e, st3)
       | Inr p \<Rightarrow>
      (let st4 = st3\<lparr> pwm := p,
                      lid_closed := py_bool (dict_get d ''lidClosed'' (PBool False)),
                      level := py_bool (dict_get d ''level'' (PBool False)),
                      running := py_bool (dict_get d ''running'' (PBool False)) \<rparr> in
      (case py_int E (dict_get d ''remainingMs'' (PInt 0)) of
         Inl e \<Rightarrow> (Inl e, st4)
       | Inr rem \<Rightarrow> (Inr (), st4\<lparr> remaining_ms := rem, last_updated := now \<rparr>)))))))))"

text \<open>The clause \<^verbatim>\<open>except (json.JSONDecodeError, KeyError)\<close> around the whole body.\<close>

definition except_json :: "unit run \<Rightarrow> unit run" where
  "except_json r =
     (case r of
        (Inl e, c) \<Rightarrow> if e = JSONDecodeError \<or> e = KeyError then (Inr (), c) else (Inl e, c)
      | (Inr u, c) \<Rightarrow> (Inr u, c))"

text \<open>\<^verbatim>\<open>_parse_status_json\<close>. A decoded value that is no dict has no \<^verbatim>\<open>get\<close>.\<close>

definition parse_status_json :: "env \<Rightarrow> timestamp \<Rightarrow> string \<Rightarrow> ctrl \<Rightarrow> unit run" where
  "parse_status_json E now line c =
     except_json
       (case json_loads E line of
          Inl e \<Rightarrow> (Inl e, c)
        | Inr (PDict d) \<Rightarrow>
            (case write_json_fields E now d (status c) of
               (Inl e, st) \<Rightarrow> (Inl e, c\<lparr> status := st \<rparr>)
             | (Inr u, st) \<Rightarrow>
                 (let c1 = c\<lparr> status := st \<rparr> in
                  and_then (fire_callback (on_status_update c1) (StatusUpdate (get_status c1)) c1)
                    check_state_change))
        | Inr v \<Rightarrow> (Inl AttributeError, c))"

subsection \<open>The line parser\<close>

definition startswith :: "string \<Rightarrow> string \<Rightarrow> bool" where
  "startswith line p = (take (length p) line = p)"

text \<open>\<^verbatim>\<open>_parse_line\<close>: the branches in the order of the source. The last five only log.\<close>

definition parse_line :: "env \<Rightarrow> timestamp \<Rightarrow> string \<Rightarrow> ctrl \<Rightarrow> unit run" where
  "parse_line E now line c =
     (if startswith line ''{'' then parse_status_json E now line c
      else if startswith line ''ERROR:'' then
        (let reason = drop 6 line;
             c1 = c\<lparr> status := (status c)\<lparr> state := ERROR, error_reason := reason \<rparr> \<rparr>
         in and_then (fire_callback (on_error c1) (ErrorEvent reason) c1) check_state_change)
      else if startswith line ''STATE:'' then
        (case state_of_string (drop 6 line) of
           Some new_state \<Rightarrow>
             check_state_change (c\<lparr> status := (status c)\<lparr> state := new_state \<rparr> \<rparr>)
         | None \<Rightarrow> (Inr (), c))
      else if startswith line ''STATUS:COMPLETE'' then fire_callback (on_complete c) Complete c
      else if startswith line ''WARNING:'' then (Inr (), c)
      else if line = ''PONG'' then (Inr (), c)
      else if startswith line ''ACK:'' then (Inr (), c)
      else if startswith line ''Centrifuge Control'' \<or> line = ''System Ready'' then (Inr (), c)
      else (Inr (), c))"

subsection \<open>Losing and closing the link\<close>

text \<open>\<^verbatim>\<open>_handle_disconnect\<close>.\<close>

definition handle_disconnect :: "ctrl \<Rightarrow> unit run" where
  "handle_disconnect c =
     (let c1 = c\<lparr> status := (status c)\<lparr> state := DISCONNECTED \<rparr> \<rparr>;
          c2 = (case serial c1 of None \<Rightarrow> c1 | Some l \<Rightarrow> c1\<lparr> serial := Some (close l) \<rparr>)
      in fire_callback (on_error c2) (ErrorEvent ''SERIAL_DISCONNECTED'') c2)"

text \<open>\<^verbatim>\<open>disconnect\<close>: the stop flag, the joins (they wait, and change nothing here), the
  close of an open port, the state.\<close>

definition disconnect :: "ctrl \<Rightarrow> ctrl" where
  "disconnect c =
     (let c1 = c\<lparr> stop_event := True \<rparr>;
          c2 = (case serial c1 of
                  None \<Rightarrow> c1
                | Some l \<Rightarrow> if is_open l then c1\<lparr> serial := Some (close l) \<rparr> else c1)
      in c2\<lparr> status := (status c2)\<lparr> state := DISCONNECTED \<rparr> \<rparr>)"

text \<open>
  \<^verbatim>\<open>connect\<close>. \<open>detected\<close> is what \<^verbatim>\<open>_auto_detect_port()\<close> returns; \<open>opened\<close> says how
  far the \<^verbatim>\<open>try\<close> block gets: the constructor raises, or the port opens and
  \<^verbatim>\<open>reset_input_buffer\<close> raises, or all of it succeeds. With no port name the
  constructor returns a port object that is not open, and \<^verbatim>\<open>reset_input_buffer\<close> raises.
\<close>

datatype open_result = OpenFails | ResetFails | Opens

definition connect :: "string option \<Rightarrow> open_result \<Rightarrow> ctrl \<Rightarrow> bool \<times> ctrl" where
  "connect detected opened c =
     (let c1 = (if port c = None \<and> auto_detect c then c\<lparr> port := detected \<rparr> else c) in
      if port c = None \<and> auto_detect c \<and> port c1 = None then (False, c1)
      else if port c1 = None then
        (False, c1\<lparr> serial := Some \<lparr> is_open = False, written = [], close_calls = 0 \<rparr> \<rparr>)
      else
        (case opened of
           OpenFails \<Rightarrow> (False, c1)
         | ResetFails \<Rightarrow>
             (False, c1\<lparr> serial := Some \<lparr> is_open = True, written = [], close_calls = 0 \<rparr> \<rparr>)
         | Opens \<Rightarrow>
             (True, c1\<lparr> serial := Some \<lparr> is_open = True, written = [], close_calls = 0 \<rparr>,
                        stop_event := False \<rparr>)))"

subsection \<open>The write path\<close>

text \<open>
  \<^verbatim>\<open>_send\<close>. \<open>w\<close> is what the write does if it is reached: \<open>None\<close> when it succeeds,
  \<open>Some e\<close> when it raises \<open>e\<close>. Only \<^verbatim>\<open>SerialException\<close> is caught.
\<close>

definition send :: "pyexc option \<Rightarrow> string \<Rightarrow> ctrl \<Rightarrow> bool run" where
  "send w command c =
     (if \<not> is_connected c then (Inr False, c)
      else
        (case w of
           None \<Rightarrow>
             (Inr True, c\<lparr> serial := map_option (\<lambda>l. l\<lparr> written := written l @ [command] \<rparr>) (serial c) \<rparr>)
         | Some e \<Rightarrow>
             if e = SerialException
             then (case handle_disconnect c of
                     (Inl e', c') \<Rightarrow> (Inl e', c')
                   | (Inr u, c') \<Rightarrow> (Inr False, c'))
             else (Inl e, c)))"

text \<open>Decimal digits of an integer, as \<^verbatim>\<open>str\<close> and the f-string print it.\<close>

fun str_nat :: "nat \<Rightarrow> string" where
  "str_nat n =
     (if n < 10 then [char_of (48 + n)]
      else str_nat (n div 10) @ [char_of (48 + n mod 10)])"

definition str_int :: "int \<Rightarrow> string" where
  "str_int i = (if i < 0 then CHR ''-'' # str_nat (nat (- i)) else str_nat (nat i))"

definition start :: "pyexc option \<Rightarrow> int \<Rightarrow> int \<Rightarrow> ctrl \<Rightarrow> bool run" where
  "start w rpm duration_sec c =
     (if \<not> is_connected c then (Inr False, c)
      else
        (let duration_ms = duration_sec * 1000;
             command = ''START:'' @ str_int rpm @ '':'' @ str_int duration_ms @ [CHR 0x0A]
         in send w command c))"

definition stop :: "pyexc option \<Rightarrow> ctrl \<Rightarrow> bool run" where
  "stop w c = send w (''STOP'' @ [CHR 0x0A]) c"

definition emergency_stop :: "pyexc option \<Rightarrow> ctrl \<Rightarrow> bool run" where
  "emergency_stop w c = send w (''EMERGENCY_STOP'' @ [CHR 0x0A]) c"

definition clear_error :: "pyexc option \<Rightarrow> ctrl \<Rightarrow> bool run" where
  "clear_error w c = send w (''CLEAR_ERROR'' @ [CHR 0x0A]) c"

definition request_status :: "pyexc option \<Rightarrow> ctrl \<Rightarrow> bool run" where
  "request_status w c = send w (''STATUS'' @ [CHR 0x0A]) c"

definition ping :: "pyexc option \<Rightarrow> ctrl \<Rightarrow> bool run" where
  "ping w c = send w (''PING'' @ [CHR 0x0A]) c"

subsection \<open>The background loops\<close>

text \<open>
  The reader loop runs against a script: what each \<^verbatim>\<open>readline()\<close> gave. \<open>Timeout\<close> is
  the empty read; \<open>Line now text\<close> is a read whose decoded, stripped text is \<open>text\<close>, with
  the clock at \<open>now\<close>; \<open>IOFailure\<close> is a read that raises \<^verbatim>\<open>SerialException\<close>. A loop
  ends as \<open>Exited\<close> (it left the \<^verbatim>\<open>while\<close>), as \<open>Died e\<close> (an exception left the thread's
  function) or, when the script is used up and the stop flag is clear, as \<open>Running\<close>.
\<close>

datatype read_result = Timeout | Line timestamp string | IOFailure

datatype loop_status = Running | Exited | Died pyexc

definition after_disconnect :: "unit run \<Rightarrow> loop_status \<times> ctrl" where
  "after_disconnect r = (case r of (Inl e, c) \<Rightarrow> (Died e, c) | (Inr u, c) \<Rightarrow> (Exited, c))"

fun reader_loop :: "env \<Rightarrow> read_result list \<Rightarrow> ctrl \<Rightarrow> loop_status \<times> ctrl" where
  "reader_loop E [] c = (if stop_event c then Exited else Running, c)"
| "reader_loop E (r # rs) c =
     (if stop_event c then (Exited, c)
      else
        (case r of
           Timeout \<Rightarrow> reader_loop E rs c
         | IOFailure \<Rightarrow> after_disconnect (handle_disconnect c)
         | Line now text \<Rightarrow>
             if text = [] then reader_loop E rs c
             else
               (case parse_line E now text c of
                  (Inr u, c') \<Rightarrow> reader_loop E rs c'
                | (Inl e, c') \<Rightarrow>
                    if e = SerialException then after_disconnect (handle_disconnect c')
                    else if is_Exception e then reader_loop E rs c'
                    else (Died e, c'))))"

text \<open>
  The watchdog loop, one script entry per wake-up: what the write of the \<^verbatim>\<open>PING\<close> does
  if it is reached. Nothing in the loop catches what \<^verbatim>\<open>ping()\<close> raises.
\<close>

fun watchdog_loop :: "pyexc option list \<Rightarrow> ctrl \<Rightarrow> loop_status \<times> ctrl" where
  "watchdog_loop [] c = (if stop_event c then Exited else Running, c)"
| "watchdog_loop (w # ws) c =
     (if stop_event c then (Exited, c)
      else if is_connected c \<and> \<not> stop_event c then
        (case ping w c of
           (Inl e, c') \<Rightarrow> (Died e, c')
         | (Inr b, c') \<Rightarrow> watchdog_loop ws c')
      else watchdog_loop ws c)"

text \<open>The observer calls made between two moments of a run.\<close>

definition new_events :: "ctrl \<Rightarrow> ctrl \<Rightarrow> event list" where
  "new_events c c' = drop (length (trace c)) (trace c')"

subsection \<open>A decoder for flat objects\<close>

text \<open>
  The theorems below hold for every \<open>env\<close>. To run the model on the text of a line, one
  decoder is given here: it reads a JSON object whose values are strings without escapes,
  integers, \<^verbatim>\<open>true\<close>, \<^verbatim>\<open>false\<close> and \<^verbatim>\<open>null\<close>, which is what the device sends, and
  answers as \<^verbatim>\<open>json.loads\<close> does on those. A key that occurs twice keeps its last
  value. Like \<^verbatim>\<open>json.loads\<close>, and unlike the JSON grammar, it also reads the literals
  \<^verbatim>\<open>NaN\<close>, \<^verbatim>\<open>Infinity\<close> and \<^verbatim>\<open>-Infinity\<close>; with the flag off it keeps to the grammar
  and rejects them. It answers \<open>JSONDecodeError\<close> on all other text, which is not what
  \<^verbatim>\<open>json.loads\<close> does on nested values, fractions and escapes: it is only run on
  objects of the first kind and on text that \<^verbatim>\<open>json.loads\<close> rejects.
\<close>

definition json_ws :: "char \<Rightarrow> bool" where
  "json_ws ch = (ch = CHR '' '' \<or> ch = CHR 0x09 \<or> ch = CHR 0x0A \<or> ch = CHR 0x0D)"

definition skip_ws :: "string \<Rightarrow> string" where
  "skip_ws s = dropWhile json_ws s"

definition is_digit :: "char \<Rightarrow> bool" where
  "is_digit ch = (ch \<in> set ''0123456789'')"

definition digits_val :: "string \<Rightarrow> int" where
  "digits_val ds = foldl (\<lambda>a ch. 10 * a + (of_char ch - 48)) 0 ds"

text \<open>
  \<^verbatim>\<open>int\<close> on a string of ASCII characters: white space around it is dropped, a sign may
  lead, and the digits may be grouped by single underscores.
\<close>

definition py_space :: "char \<Rightarrow> bool" where
  "py_space ch =
     (ch \<in> set [CHR '' '', CHR 0x09, CHR 0x0A, CHR 0x0B, CHR 0x0C, CHR 0x0D,
                CHR 0x1C, CHR 0x1D, CHR 0x1E, CHR 0x1F])"

definition strip_space :: "string \<Rightarrow> string" where
  "strip_space s = rev (dropWhile py_space (rev (dropWhile py_space s)))"

definition grouped_digits :: "string \<Rightarrow> bool" where
  "grouped_digits b =
     (0 < length b \<and> is_digit (hd b) \<and> is_digit (last b)
      \<and> list_all (\<lambda>ch. is_digit ch \<or> ch = CHR ''_'') b
      \<and> list_all (\<lambda>(x, y). is_digit x \<or> is_digit y) (zip b (tl b)))"

definition decimal_of_str :: "string \<Rightarrow> int option" where
  "decimal_of_str s =
     (let t = strip_space s;
          neg = (take 1 t = ''-'');
          b = (if take 1 t = ''-'' \<or> take 1 t = ''+'' then tl t else t)
      in if grouped_digits b
         then Some (if neg then - digits_val (filter is_digit b) else digits_val (filter is_digit b))
         else None)"

text \<open>The text after an opening quote, up to the closing one.\<close>

fun scan_string :: "string \<Rightarrow> (string \<times> string) option" where
  "scan_string [] = None"
| "scan_string (ch # cs) =
     (if ch = CHR 0x22 then Some ([], cs)
      else if ch = CHR 0x5C \<or> (of_char ch :: nat) < 32 then None
      else (case scan_string cs of None \<Rightarrow> None | Some (t, r) \<Rightarrow> Some (ch # t, r)))"

definition scan_number :: "string \<Rightarrow> (pyval \<times> string) option" where
  "scan_number s =
     (let neg = (take 1 s = ''-'');
          s1 = (if neg then tl s else s);
          ds = takeWhile is_digit s1;
          r = dropWhile is_digit s1
      in if ds = [] \<or> (1 < length ds \<and> hd ds = CHR ''0'') then None
         else if take 1 r = ''.'' \<or> take 1 r = ''e'' \<or> take 1 r = ''E'' then None
         else Some (PInt (if neg then - digits_val ds else digits_val ds), r))"

text \<open>The three literals that \<^verbatim>\<open>json.loads\<close> reads beyond the JSON grammar.\<close>

definition scan_constant :: "string \<Rightarrow> (pyval \<times> string) option" where
  "scan_constant s =
     (if startswith s ''NaN'' then Some (PFloat NaN, drop 3 s)
      else if startswith s ''Infinity'' then Some (PFloat (Infinity False), drop 8 s)
      else if startswith s ''-Infinity'' then Some (PFloat (Infinity True), drop 9 s)
      else None)"

definition scan_value :: "bool \<Rightarrow> string \<Rightarrow> (pyval \<times> string) option" where
  "scan_value py s =
     (if startswith s ''true'' then Some (PBool True, drop 4 s)
      else if startswith s ''false'' then Some (PBool False, drop 5 s)
      else if startswith s ''null'' then Some (PNone, drop 4 s)
      else if take 1 s = [CHR 0x22]
        then (case scan_string (tl s) of None \<Rightarrow> None | Some (t, r) \<Rightarrow> Some (PStr t, r))
      else
        (case (if py then scan_constant s else None) of
           Some r \<Rightarrow> Some r
         | None \<Rightarrow> scan_number s))"

text \<open>The members after the opening brace; the fuel bounds the number of members.\<close>

fun scan_members ::
    "bool \<Rightarrow> nat \<Rightarrow> (string \<times> pyval) list \<Rightarrow> string \<Rightarrow> (string \<times> pyval) list option" where
  "scan_members py 0 acc s = None"
| "scan_members py (Suc n) acc s =
     (let s0 = skip_ws s in
      if take 1 s0 = [CHR 0x22] then
        (case scan_string (tl s0) of
           None \<Rightarrow> None
         | Some (k, r1) \<Rightarrow>
             (let r2 = skip_ws r1 in
              if take 1 r2 = '':'' then
                (case scan_value py (skip_ws (tl r2)) of
                   None \<Rightarrow> None
                 | Some (v, r3) \<Rightarrow>
                     (let r4 = skip_ws r3 in
                      if take 1 r4 = '','' then scan_members py n ((k, v) # acc) (tl r4)
                      else if take 1 r4 = ''}'' \<and> skip_ws (tl r4) = [] then Some ((k, v) # acc)
                      else None))
              else None))
      else None)"

definition flat_loads :: "bool \<Rightarrow> string \<Rightarrow> pyexc + pyval" where
  "flat_loads py s =
     (let s0 = skip_ws s in
      if take 1 s0 = ''{'' then
        (if take 1 (skip_ws (tl s0)) = ''}'' \<and> skip_ws (tl (skip_ws (tl s0))) = []
         then Inr (PDict [])
         else
           (case scan_members py (length s0) [] (tl s0) of
              None \<Rightarrow> Inl JSONDecodeError
            | Some d \<Rightarrow> Inr (PDict d)))
      else Inl JSONDecodeError)"

text \<open>As \<^verbatim>\<open>json.loads\<close> reads, and as the JSON grammar reads.\<close>

definition flat_json_loads :: "string \<Rightarrow> pyexc + pyval" where
  "flat_json_loads s = flat_loads True s"

definition flat_json_strict :: "string \<Rightarrow> pyexc + pyval" where
  "flat_json_strict s = flat_loads False s"

definition flat_env :: env where
  "flat_env = \<lparr> json_loads = flat_json_loads, int_of_str = decimal_of_str \<rparr>"

subsection \<open>What the observers see\<close>

text \<open>The call that a dispatch makes: none without a callback, else the event.\<close>

definition deliver :: "observer option \<Rightarrow> event \<Rightarrow> event list" where
  "deliver cb ev = (case cb of None \<Rightarrow> [] | Some ob \<Rightarrow> [ev])"

fun is_state_change :: "event \<Rightarrow> bool" where
  "is_state_change (StateChange a b) = True"
| "is_state_change ev = False"

text \<open>
  The state-changed events that a sequence of observed states calls for: one for each
  state that differs from the one observed before it, carrying both, in order.
\<close>

fun transitions :: "SystemState \<Rightarrow> SystemState list \<Rightarrow> (SystemState \<times> SystemState) list" where
  "transitions prev [] = []"
| "transitions prev (s # ss) = (if s = prev then [] else [(prev, s)]) @ transitions s ss"

text \<open>The state that a line reports, for the three kinds of line that write the state:
  a JSON object, \<^verbatim>\<open>ERROR:\<close> and a \<^verbatim>\<open>STATE:\<close> with a known name.\<close>

definition decoded_state :: "env \<Rightarrow> string \<Rightarrow> SystemState option" where
  "decoded_state E line =
     (if startswith line ''{'' then
        (case json_loads E line of
           Inl e \<Rightarrow> None
         | Inr v \<Rightarrow> (case v of PDict d \<Rightarrow> Some (json_state d) | _ \<Rightarrow> None))
      else if startswith line ''ERROR:'' then Some ERROR
      else if startswith line ''STATE:'' then state_of_string (drop 6 line)
      else None)"

text \<open>Every line of the sequence is processed: it is not empty, and \<^verbatim>\<open>_parse_line\<close>
  returns on it, in the controller that the lines before it left.\<close>

fun all_processed :: "env \<Rightarrow> (timestamp \<times> string) list \<Rightarrow> ctrl \<Rightarrow> bool" where
  "all_processed E [] c = True"
| "all_processed E ((now, line) # ls) c =
     (0 < length line \<and>
      (case parse_line E now line c of
         (Inl e, c') \<Rightarrow> False
       | (Inr u, c') \<Rightarrow> all_processed E ls c'))"

definition as_reads :: "(timestamp \<times> string) list \<Rightarrow> read_result list" where
  "as_reads ls = map (\<lambda>(now, line). Line now line) ls"

text \<open>The state-changed call that \<^verbatim>\<open>_check_state_change\<close> makes in a controller.\<close>

definition change_events :: "ctrl \<Rightarrow> event list" where
  "change_events c =
     (if state (status c) = previous_state c then []
      else deliver (on_state_change c) (StateChange (previous_state c) (state (status c))))"

text \<open>What one line calls for: the state-changed event, and the state observed after it.\<close>

definition line_changes :: "env \<Rightarrow> string \<Rightarrow> ctrl \<Rightarrow> event list" where
  "line_changes E line c =
     (case decoded_state E line of
        None \<Rightarrow> []
      | Some s \<Rightarrow> if s = previous_state c then []
                  else deliver (on_state_change c) (StateChange (previous_state c) s))"

definition line_observed :: "env \<Rightarrow> string \<Rightarrow> SystemState \<Rightarrow> SystemState" where
  "line_observed E line prev = (case decoded_state E line of None \<Rightarrow> prev | Some s \<Rightarrow> s)"

text \<open>The state-changed calls for a sequence of observed states, to the callback \<open>cb\<close>.\<close>

definition expected_changes :: "observer option \<Rightarrow> SystemState \<Rightarrow> SystemState list \<Rightarrow> event list" where
  "expected_changes cb prev ss = concat (map (\<lambda>(a, b). deliver cb (StateChange a b)) (transitions prev ss))"

text \<open>The states that the lines of a sequence report, in order.\<close>

definition observed_states :: "env \<Rightarrow> (timestamp \<times> string) list \<Rightarrow> SystemState list" where
  "observed_states E ls = List.map_filter (decoded_state E) (map snd ls)"

subsection \<open>A session to run\<close>

definition listener :: observer where
  "listener = \<lparr> has_name = True, behaviour = (\<lambda>ev. Returns) \<rparr>"

definition fresh :: ctrl where
  "fresh = init 0 (Some ''COM3'') True (Some listener) (Some listener) (Some listener) (Some listener)"

definition session :: ctrl where
  "session = snd (connect None Opens fresh)"

text \<open>The status line of the scenario, a cut-off line, and a line whose
  \<^verbatim>\<open>currentRPM\<close> is \<^verbatim>\<open>null\<close>.\<close>

definition running_line :: string where
  \<open>running_line = ''{"state":"RUNNING","currentRPM":850,"targetRPM":1000,"lidClosed":true,"level":true,"running":true,"remainingMs":12000}''\<close>

definition cut_line :: string where
  \<open>cut_line = ''{"state":"RUNNING","currentRPM":85''\<close>

definition null_line :: string where
  \<open>null_line = ''{"state":"IDLE","currentRPM":null,"targetRPM":0,"running":false}''\<close>

text \<open>A line with only \<^verbatim>\<open>currentRPM\<close>, \<^verbatim>\<open>null\<close> again, and a line with the literal
  \<^verbatim>\<open>NaN\<close>, which the JSON grammar does not have.\<close>

definition bare_null_line :: string where
  \<open>bare_null_line = ''{"currentRPM":null}''\<close>

definition nan_line :: string where
  \<open>nan_line = ''{"state":"RUNNING","lidClosed":NaN}''\<close>

text \<open>Three lines in the order of their arrival: a status packet, a packet whose
  \<^verbatim>\<open>currentRPM\<close> is \<^verbatim>\<open>null\<close>, a state line.\<close>

definition broken_run :: "(timestamp \<times> string) list" where
  "broken_run = [(1, running_line), (2, null_line), (3, ''STATE:RAMPING_DOWN'')]"



text \<open>A sequence of lines with the clock readings of their arrival.\<close>

definition demo_lines :: "(timestamp \<times> string) list" where
  "demo_lines = [(1, ''STATE:IDLE''), (2, ''STATE:IDLE''), (3, running_line), (4, ''STATE:BOOTING''),
                 (5, ''STATE:RUNNING''), (6, ''PONG''), (7, ''ERROR:LID_OPEN''), (8, cut_line)]"

section \<open>Facts about the model\<close>

lemma fire_callback_snd:
  "snd (fire_callback cb ev c) = c\<lparr> trace := trace c @ deliver cb ev \<rparr>"
  by (simp add: fire_callback_def deliver_def Let_def split: option.splits cb_result.splits)

lemma fire_callback_eqD:
  "fire_callback cb ev c = (r, c') \<Longrightarrow> c' = c\<lparr> trace := trace c @ deliver cb ev \<rparr>"
  using fire_callback_snd [of cb ev c] by simp

lemma fire_callback_raises:
  "fire_callback cb ev c = (Inl e, c') \<Longrightarrow> e = AttributeError \<or> \<not> is_Exception e"
  by (auto simp: fire_callback_def Let_def split: option.splits cb_result.splits if_splits)

text \<open>An observer without a \<^verbatim>\<open>__name__\<close> that raises an \<^verbatim>\<open>Exception\<close>: the handler
  itself raises.\<close>

lemma fire_callback_nameless:
  "behaviour ob ev = Raises e \<Longrightarrow> is_Exception e \<Longrightarrow> \<not> has_name ob \<Longrightarrow>
     fire_callback (Some ob) ev c = (Inl AttributeError, c\<lparr> trace := trace c @ [ev] \<rparr>)"
  by (simp add: fire_callback_def Let_def)

lemma and_then_Inr:
  "and_then r f = (Inr u, c') \<longleftrightarrow> (\<exists>c1. r = (Inr (), c1) \<and> f c1 = (Inr u, c'))"
  by (cases r) (auto simp: and_then_def split: sum.splits)

lemma and_then_Inl:
  "and_then r f = (Inl e, c') \<longleftrightarrow> (r = (Inl e, c') \<or> (\<exists>c1. r = (Inr (), c1) \<and> f c1 = (Inl e, c')))"
  by (cases r) (auto simp: and_then_def split: sum.splits)

lemma check_state_change_Inr:
  "check_state_change c = (Inr u, c') \<Longrightarrow>
     c' = c\<lparr> trace := trace c @ change_events c, previous_state := state (status c) \<rparr>"
  by (auto simp: check_state_change_def change_events_def Let_def and_then_Inr
           dest!: fire_callback_eqD split: if_splits)

lemma check_state_change_Inl:
  "check_state_change c = (Inl e, c') \<Longrightarrow>
     c' = c\<lparr> trace := trace c @ change_events c \<rparr> \<and> (e = AttributeError \<or> \<not> is_Exception e)"
  by (auto simp: check_state_change_def change_events_def Let_def and_then_Inl
           dest: fire_callback_eqD fire_callback_raises split: if_splits)

lemma py_int_raises:
  "py_int E v = Inl e \<Longrightarrow> e = TypeError \<or> e = ValueError \<or> e = OverflowError"
  by (induction E v rule: py_int.induct) (auto split: option.splits)

lemma write_json_fields_raises:
  "write_json_fields E now d st = (Inl e, st') \<Longrightarrow> e = TypeError \<or> e = ValueError \<or> e = OverflowError"
  by (auto simp: write_json_fields_def Let_def split: sum.splits dest: py_int_raises)

lemma write_json_fields_state:
  "state (snd (write_json_fields E now d st)) = json_state d"
  by (simp add: write_json_fields_def Let_def split: sum.splits)

lemma session_simps:
  "serial session = Some \<lparr> is_open = True, written = [], close_calls = 0 \<rparr>"
  "stop_event session = False"
  "previous_state session = DISCONNECTED"
  "status session = new_status 0"
  "trace session = []"
  "on_status_update session = Some listener"
  "on_state_change session = Some listener"
  "on_error session = Some listener"
  "on_complete session = Some listener"
  by (simp_all add: session_def fresh_def connect_def init_def Let_def)

lemma snd_except_json: "snd (except_json r) = snd r"
  by (cases r) (auto simp: except_json_def split: sum.splits)

lemma check_state_change_status: "status (snd (check_state_change c)) = status c"
proof -
  obtain r c' where k: "check_state_change c = (r, c')" by (cases "check_state_change c")
  show ?thesis
  proof (cases r)
    case (Inl e)
    with k check_state_change_Inl [of c e c'] have "c' = c\<lparr> trace := trace c @ change_events c \<rparr>" by simp
    then have "status c' = status (c\<lparr> trace := trace c @ change_events c \<rparr>)" by simp
    with k show ?thesis by simp
  next
    case (Inr u)
    with k check_state_change_Inr [of c u c']
    have "c' = c\<lparr> trace := trace c @ change_events c, previous_state := state (status c) \<rparr>" by simp
    then have "status c' = status (c\<lparr> trace := trace c @ change_events c, previous_state := state (status c) \<rparr>)"
      by simp
    with k show ?thesis by simp
  qed
qed

lemma dispatch_then_check_status:
  "status (snd (and_then (fire_callback cb ev c) check_state_change)) = status c"
proof -
  obtain r c1 where f: "fire_callback cb ev c = (r, c1)" by (cases "fire_callback cb ev c")
  from fire_callback_eqD [OF f] have "status c1 = status (c\<lparr> trace := trace c @ deliver cb ev \<rparr>)" by simp
  then have s1: "status c1 = status c" by simp
  show ?thesis
    using f s1 check_state_change_status [of c1]
    by (cases r) (simp_all add: and_then_def)
qed

lemma parse_status_json_status:
  assumes "json_loads E line = Inr (PDict d)"
  shows "status (snd (parse_status_json E now line c)) = snd (write_json_fields E now d (status c))"
proof -
  obtain r st where w: "write_json_fields E now d (status c) = (r, st)"
    by (cases "write_json_fields E now d (status c)")
  show ?thesis
    using assms w dispatch_then_check_status
    by (cases r) (simp_all add: parse_status_json_def snd_except_json Let_def)
qed

lemma json_state_absent: "map_of d ''state'' = None \<Longrightarrow> json_state d = IDLE"
  by (simp add: json_state_def dict_get_def state_of_string_def)

lemma json_state_present:
  "map_of d ''state'' = Some v \<Longrightarrow>
     json_state d = (case state_of_pyval v of None \<Rightarrow> IDLE | Some x \<Rightarrow> x)"
  by (simp add: json_state_def dict_get_def)

lemma filter_deliver:
  "filter is_state_change (deliver cb ev) = (if is_state_change ev then deliver cb ev else [])"
  by (simp add: deliver_def split: option.splits)

lemma filter_change_events: "filter is_state_change (change_events c) = change_events c"
  by (simp add: change_events_def filter_deliver)

lemma parse_status_json_Inr:
  assumes "parse_status_json E now line c = (Inr u, c')"
  shows "(\<exists>e. json_loads E line = Inl e \<and> c' = c)
       \<or> (\<exists>d st. json_loads E line = Inr (PDict d) \<and> write_json_fields E now d (status c) = (Inr (), st)
              \<and> c' = c\<lparr> status := st, trace := trace c @ deliver (on_status_update c) (StatusUpdate st)
                                     @ change_events (c\<lparr> status := st \<rparr>),
                       previous_state := state st \<rparr>)"
proof (cases "json_loads E line")
  case (Inl e)
  with assms show ?thesis
    by (auto simp: parse_status_json_def except_json_def split: if_splits)
next
  case (Inr v)
  show ?thesis
  proof (cases v)
    case (PDict d)
    obtain r st where w: "write_json_fields E now d (status c) = (r, st)"
      by (cases "write_json_fields E now d (status c)")
    show ?thesis
    proof (cases r)
      case (Inl e)
      with assms Inr PDict w write_json_fields_raises [of E now d "status c" e st]
      show ?thesis
        by (auto simp: parse_status_json_def except_json_def split: if_splits)
    next
      case (Inr u')
      let ?c1 = "c\<lparr> status := st \<rparr>"
      let ?body = "and_then (fire_callback (on_status_update ?c1) (StatusUpdate (get_status ?c1)) ?c1)
                     check_state_change"
      have body: "parse_status_json E now line c = except_json ?body"
        using \<open>json_loads E line = Inr v\<close> PDict w Inr
        by (simp add: parse_status_json_def Let_def)
      obtain rb cb where b: "?body = (rb, cb)" by (cases ?body)
      have "rb = Inr () \<and> cb = c'"
      proof (cases rb)
        case (Inl e)
        with b have "e = AttributeError \<or> \<not> is_Exception e"
          by (auto simp: and_then_Inl dest: fire_callback_raises check_state_change_Inl)
        then have "e \<noteq> JSONDecodeError \<and> e \<noteq> KeyError"
          by (auto simp: is_Exception_def)
        with assms body b Inl show ?thesis
          by (simp add: except_json_def)
      next
        case (Inr x)
        with assms body b show ?thesis by (simp add: except_json_def)
      qed
      with b have "?body = (Inr (), c')" by simp
      then obtain c2 where f: "fire_callback (on_status_update ?c1) (StatusUpdate (get_status ?c1)) ?c1 = (Inr (), c2)"
        and k: "check_state_change c2 = (Inr (), c')"
        by (auto simp: and_then_Inr)
      from fire_callback_eqD [OF f] have c2: "c2 = ?c1\<lparr> trace := trace c @ deliver (on_status_update c) (StatusUpdate st) \<rparr>"
        by (simp add: get_status_def)
      from check_state_change_Inr [OF k] c2
      have "c' = c\<lparr> status := st, trace := trace c @ deliver (on_status_update c) (StatusUpdate st)
                                     @ change_events ?c1,
                       previous_state := state st \<rparr>"
        by (simp add: change_events_def)
      with \<open>json_loads E line = Inr v\<close> PDict w Inr show ?thesis by simp
    qed
  qed (use assms Inr in \<open>auto simp: parse_status_json_def except_json_def\<close>)
qed

lemma parse_line_Inr:
  assumes "parse_line E now line c = (Inr u, c')"
  shows "\<exists>evs. c' = c\<lparr> status := status c', trace := trace c @ evs,
                        previous_state := line_observed E line (previous_state c) \<rparr>
           \<and> filter is_state_change evs = line_changes E line c
           \<and> state (status c') = line_observed E line (state (status c))"
proof -
  consider (json) "startswith line ''{''"
    | (error) "\<not> startswith line ''{''" "startswith line ''ERROR:''"
    | (state) "\<not> startswith line ''{''" "\<not> startswith line ''ERROR:''" "startswith line ''STATE:''"
    | (complete) "\<not> startswith line ''{''" "\<not> startswith line ''ERROR:''" "\<not> startswith line ''STATE:''"
        "startswith line ''STATUS:COMPLETE''"
    | (other) "\<not> startswith line ''{''" "\<not> startswith line ''ERROR:''" "\<not> startswith line ''STATE:''"
        "\<not> startswith line ''STATUS:COMPLETE''"
    by blast
  then show ?thesis
  proof cases
    case json
    with assms have p: "parse_status_json E now line c = (Inr u, c')"
      by (simp add: parse_line_def)
    from parse_status_json_Inr [OF p] show ?thesis
    proof (elim disjE exE conjE)
      fix e assume "json_loads E line = Inl e" "c' = c"
      with json have "c' = c\<lparr> status := status c', trace := trace c @ [],
                              previous_state := line_observed E line (previous_state c) \<rparr>
           \<and> filter is_state_change [] = line_changes E line c
           \<and> state (status c') = line_observed E line (state (status c))"
        by (simp add: line_observed_def line_changes_def decoded_state_def)
      then show ?thesis by blast
    next
      fix d st
      assume l: "json_loads E line = Inr (PDict d)"
        and w: "write_json_fields E now d (status c) = (Inr (), st)"
        and c': "c' = c\<lparr> status := st, trace := trace c @ deliver (on_status_update c) (StatusUpdate st)
                                     @ change_events (c\<lparr> status := st \<rparr>),
                       previous_state := state st \<rparr>"
      from w write_json_fields_state [of E now d "status c"] have st: "state st = json_state d" by simp
      from json l have dec: "decoded_state E line = Some (json_state d)"
        by (simp add: decoded_state_def)
      let ?evs = "deliver (on_status_update c) (StatusUpdate st) @ change_events (c\<lparr> status := st \<rparr>)"
      have "c' = c\<lparr> status := status c', trace := trace c @ ?evs,
                     previous_state := line_observed E line (previous_state c) \<rparr>"
        using c' st dec by (simp add: line_observed_def)
      moreover have "filter is_state_change ?evs = line_changes E line c"
        using st dec by (simp add: filter_deliver filter_change_events line_changes_def change_events_def)
      moreover have "state (status c') = line_observed E line (state (status c))"
        using c' st dec by (simp add: line_observed_def)
      ultimately show ?thesis by blast
    qed
  next
    case error
    let ?c1 = "c\<lparr> status := (status c)\<lparr> state := ERROR, error_reason := drop 6 line \<rparr> \<rparr>"
    from assms error
    have "and_then (fire_callback (on_error ?c1) (ErrorEvent (drop 6 line)) ?c1) check_state_change = (Inr u, c')"
      by (simp add: parse_line_def Let_def)
    then obtain c2 where f: "fire_callback (on_error ?c1) (ErrorEvent (drop 6 line)) ?c1 = (Inr (), c2)"
      and k: "check_state_change c2 = (Inr u, c')"
      by (auto simp: and_then_Inr)
    from fire_callback_eqD [OF f]
    have c2: "c2 = ?c1\<lparr> trace := trace c @ deliver (on_error c) (ErrorEvent (drop 6 line)) \<rparr>" by simp
    from error have dec: "decoded_state E line = Some ERROR" by (simp add: decoded_state_def)
    let ?evs = "deliver (on_error c) (ErrorEvent (drop 6 line)) @ change_events ?c1"
    from check_state_change_Inr [OF k] c2
    have e: "c' = c\<lparr> status := (status c)\<lparr> state := ERROR, error_reason := drop 6 line \<rparr>,
                     trace := trace c @ ?evs, previous_state := ERROR \<rparr>"
      by (simp add: change_events_def)
    have "c' = c\<lparr> status := status c', trace := trace c @ ?evs,
                   previous_state := line_observed E line (previous_state c) \<rparr>"
      using dec by (subst e) (simp add: line_observed_def e)
    moreover have "filter is_state_change ?evs = line_changes E line c"
      using dec by (simp add: filter_deliver line_changes_def change_events_def)
    moreover have "state (status c') = line_observed E line (state (status c))"
      using dec by (simp add: line_observed_def e)
    ultimately show ?thesis by blast
  next
    case state
    show ?thesis
    proof (cases "state_of_string (drop 6 line)")
      case None
      with assms state have "c' = c" by (simp add: parse_line_def)
      with state None have "c' = c\<lparr> status := status c', trace := trace c @ [],
                                    previous_state := line_observed E line (previous_state c) \<rparr>
           \<and> filter is_state_change [] = line_changes E line c
           \<and> state (status c') = line_observed E line (state (status c))"
        by (simp add: line_observed_def line_changes_def decoded_state_def)
      then show ?thesis by blast
    next
      case (Some s)
      let ?c1 = "c\<lparr> status := (status c)\<lparr> state := s \<rparr> \<rparr>"
      from assms state Some have k: "check_state_change ?c1 = (Inr u, c')"
        by (simp add: parse_line_def)
      from state Some have dec: "decoded_state E line = Some s" by (simp add: decoded_state_def)
      from check_state_change_Inr [OF k]
      have e: "c' = c\<lparr> status := (status c)\<lparr> state := s \<rparr>, trace := trace c @ change_events ?c1,
                       previous_state := s \<rparr>"
        by simp
      have "c' = c\<lparr> status := status c', trace := trace c @ change_events ?c1,
                     previous_state := line_observed E line (previous_state c) \<rparr>"
        using dec by (subst e) (simp add: line_observed_def e)
      moreover have "filter is_state_change (change_events ?c1) = line_changes E line c"
        using dec by (simp add: filter_deliver line_changes_def change_events_def)
      moreover have "state (status c') = line_observed E line (state (status c))"
        using dec by (simp add: line_observed_def e)
      ultimately show ?thesis by blast
    qed
  next
    case complete
    with assms have f: "fire_callback (on_complete c) Complete c = (Inr u, c')"
      by (simp add: parse_line_def)
    from complete have dec: "decoded_state E line = None" by (simp add: decoded_state_def)
    from fire_callback_eqD [OF f]
    have e: "c' = c\<lparr> trace := trace c @ deliver (on_complete c) Complete \<rparr>" .
    have "c' = c\<lparr> status := status c', trace := trace c @ deliver (on_complete c) Complete,
                   previous_state := line_observed E line (previous_state c) \<rparr>"
      using dec by (subst e) (simp add: line_observed_def e)
    moreover have "filter is_state_change (deliver (on_complete c) Complete) = line_changes E line c"
      using dec by (simp add: filter_deliver line_changes_def)
    moreover have "state (status c') = line_observed E line (state (status c))"
      using dec by (simp add: line_observed_def e)
    ultimately show ?thesis by blast
  next
    case other
    with assms have "c' = c" by (simp add: parse_line_def split: if_splits)
    with other have "c' = c\<lparr> status := status c', trace := trace c @ [],
                                 previous_state := line_observed E line (previous_state c) \<rparr>
           \<and> filter is_state_change [] = line_changes E line c
           \<and> state (status c') = line_observed E line (state (status c))"
      by (simp add: line_observed_def line_changes_def decoded_state_def)
    then show ?thesis by blast
  qed
qed

lemma parse_line_Inr_fields:
  assumes "parse_line E now line c = (Inr u, c')"
  shows "stop_event c' = stop_event c" and "on_state_change c' = on_state_change c"
    and "previous_state c' = line_observed E line (previous_state c)"
    and "state (status c') = line_observed E line (state (status c))"
    and "\<exists>evs. trace c' = trace c @ evs \<and> filter is_state_change evs = line_changes E line c"
proof -
  from parse_line_Inr [OF assms] obtain evs where
    c': "c' = c\<lparr> status := status c', trace := trace c @ evs,
                   previous_state := line_observed E line (previous_state c) \<rparr>"
    and f: "filter is_state_change evs = line_changes E line c"
    and s: "state (status c') = line_observed E line (state (status c))" by blast
  let ?c = "c\<lparr> status := status c', trace := trace c @ evs,
               previous_state := line_observed E line (previous_state c) \<rparr>"
  have "stop_event c' = stop_event ?c" using c' by simp
  then show "stop_event c' = stop_event c" by simp
  have "on_state_change c' = on_state_change ?c" using c' by simp
  then show "on_state_change c' = on_state_change c" by simp
  have "previous_state c' = previous_state ?c" using c' by simp
  then show "previous_state c' = line_observed E line (previous_state c)" by simp
  show "state (status c') = line_observed E line (state (status c))" by (rule s)
  have "trace c' = trace ?c" using c' by simp
  then have "trace c' = trace c @ evs" by simp
  with f show "\<exists>evs. trace c' = trace c @ evs \<and> filter is_state_change evs = line_changes E line c"
    by blast
qed

lemma reader_loop_processed:
  assumes "\<not> stop_event c" and "all_processed E ls c"
  shows "fst (reader_loop E (as_reads ls) c) = Running
       \<and> previous_state (snd (reader_loop E (as_reads ls) c))
           = last (previous_state c # observed_states E ls)
       \<and> state (status (snd (reader_loop E (as_reads ls) c)))
           = last (state (status c) # observed_states E ls)
       \<and> (\<exists>evs. trace (snd (reader_loop E (as_reads ls) c)) = trace c @ evs
             \<and> filter is_state_change evs
                 = expected_changes (on_state_change c) (previous_state c) (observed_states E ls))"
  using assms
proof (induction ls arbitrary: c)
  case Nil
  then show ?case
    by (simp add: as_reads_def expected_changes_def observed_states_def List.map_filter_simps)
next
  case (Cons p ls)
  obtain now line where p: "p = (now, line)" by (cases p)
  from Cons.prems p obtain c1 where line: "line \<noteq> []"
    and pl: "parse_line E now line c = (Inr (), c1)" and rest: "all_processed E ls c1"
    by (auto split: prod.splits sum.splits)
  note F = parse_line_Inr_fields [OF pl]
  from F(1) Cons.prems have ns: "\<not> stop_event c1" by simp
  from Cons.IH [OF ns rest] obtain evs2 where
    r: "fst (reader_loop E (as_reads ls) c1) = Running"
    and pv: "previous_state (snd (reader_loop E (as_reads ls) c1))
           = last (previous_state c1 # observed_states E ls)"
    and sv: "state (status (snd (reader_loop E (as_reads ls) c1)))
           = last (state (status c1) # observed_states E ls)"
    and t2: "trace (snd (reader_loop E (as_reads ls) c1)) = trace c1 @ evs2"
    and f2: "filter is_state_change evs2
                 = expected_changes (on_state_change c1) (previous_state c1) (observed_states E ls)"
    by blast
  from F(5) obtain evs1 where t1: "trace c1 = trace c @ evs1"
    and f1: "filter is_state_change evs1 = line_changes E line c" by blast
  have step: "reader_loop E (as_reads (p # ls)) c = reader_loop E (as_reads ls) c1"
    using Cons.prems(1) p line pl by (simp add: as_reads_def)
  show ?case
  proof (cases "decoded_state E line")
    case None
    then have "previous_state c1 = previous_state c" "state (status c1) = state (status c)"
      "line_changes E line c = []"
      "observed_states E (p # ls) = observed_states E ls"
      using F(3,4) p by (simp_all add: line_observed_def line_changes_def observed_states_def
                            List.map_filter_simps)
    with step r pv sv t1 t2 f1 f2 F(2) show ?thesis by simp
  next
    case (Some s)
    then have "previous_state c1 = s" "state (status c1) = s"
      and "line_changes E line c = (if s = previous_state c then [] else deliver (on_state_change c) (StateChange (previous_state c) s))"
      and "observed_states E (p # ls) = s # observed_states E ls"
      using F(3,4) p by (simp_all add: line_observed_def line_changes_def observed_states_def
                            List.map_filter_simps)
    with step r pv sv t1 t2 f1 f2 F(2) show ?thesis
      by (simp add: expected_changes_def)
  qed
qed

lemma watchdog_idle:
  "\<not> stop_event c \<Longrightarrow> \<not> is_connected c \<Longrightarrow> watchdog_loop ws c = (Running, c)"
  by (induction ws) simp_all

lemma handle_disconnect_snd:
  "snd (handle_disconnect c)
     = c\<lparr> status := (status c)\<lparr> state := DISCONNECTED \<rparr>,
           serial := map_option close (serial c),
           trace := trace c @ deliver (on_error c) (ErrorEvent ''SERIAL_DISCONNECTED'') \<rparr>"
  by (cases "serial c") (simp_all add: handle_disconnect_def fire_callback_snd Let_def)

lemma startswith_brace:
  "startswith line ''ERROR:'' \<Longrightarrow> \<not> startswith line ''{''"
  by (cases line) (auto simp: startswith_def)

lemma dispatch_then_check_trace:
  "trace (snd (and_then (fire_callback cb ev c) check_state_change)) = trace c @ deliver cb ev
   \<or> trace (snd (and_then (fire_callback cb ev c) check_state_change))
       = trace c @ deliver cb ev @ change_events c"
proof -
  obtain r c1 where f: "fire_callback cb ev c = (r, c1)" by (cases "fire_callback cb ev c")
  from fire_callback_eqD [OF f] have c1: "c1 = c\<lparr> trace := trace c @ deliver cb ev \<rparr>" .
  show ?thesis
  proof (cases r)
    case (Inl e)
    with f c1 show ?thesis by (simp add: and_then_def)
  next
    case (Inr u)
    obtain r2 c2 where k: "check_state_change c1 = (r2, c2)" by (cases "check_state_change c1")
    have "trace c2 = trace c1 @ change_events c1"
    proof (cases r2)
      case (Inl e)
      with k check_state_change_Inl [of c1 e c2]
      have "c2 = c1\<lparr> trace := trace c1 @ change_events c1 \<rparr>" by simp
      then have "trace c2 = trace (c1\<lparr> trace := trace c1 @ change_events c1 \<rparr>)" by simp
      then show ?thesis by simp
    next
      case (Inr u2)
      with k check_state_change_Inr [of c1 u2 c2]
      have "c2 = c1\<lparr> trace := trace c1 @ change_events c1, previous_state := state (status c1) \<rparr>"
        by simp
      then have "trace c2 = trace (c1\<lparr> trace := trace c1 @ change_events c1,
                                      previous_state := state (status c1) \<rparr>)" by simp
      then show ?thesis by simp
    qed
    moreover have "change_events c1 = change_events c"
      by (simp add: c1 change_events_def)
    moreover have "trace c1 = trace c @ deliver cb ev" by (simp add: c1)
    ultimately have "trace c2 = trace c @ deliver cb ev @ change_events c" by simp
    with f Inr k show ?thesis by (simp add: and_then_def)
  qed
qed

lemma change_events_cases:
  "change_events c = [] \<or>
   change_events c = deliver (on_state_change c) (StateChange (previous_state c) (state (status c)))"
  by (simp add: change_events_def)

lemma json_line_events:
  assumes "startswith line ''{''"
  shows "new_events c (snd (parse_line E now line c)) = []
       \<or> new_events c (snd (parse_line E now line c))
           = deliver (on_status_update c) (StatusUpdate (get_status (snd (parse_line E now line c))))
       \<or> new_events c (snd (parse_line E now line c))
           = deliver (on_status_update c) (StatusUpdate (get_status (snd (parse_line E now line c))))
             @ deliver (on_state_change c)
                 (StateChange (previous_state c) (state (get_status (snd (parse_line E now line c)))))"
proof -
  have p: "parse_line E now line c = parse_status_json E now line c"
    using assms by (simp add: parse_line_def)
  show ?thesis
  proof (cases "json_loads E line")
    case (Inl e)
    then have "snd (parse_status_json E now line c) = c"
      by (simp add: parse_status_json_def snd_except_json)
    then show ?thesis by (simp add: p new_events_def)
  next
    case (Inr v)
    show ?thesis
    proof (cases "\<exists>d. v = PDict d")
      case False
      with Inr have "snd (parse_status_json E now line c) = c"
        by (cases v) (simp_all add: parse_status_json_def snd_except_json)
      then show ?thesis by (simp add: p new_events_def)
    next
      case True
      then obtain d where d: "v = PDict d" by blast
      obtain r st where w: "write_json_fields E now d (status c) = (r, st)"
        by (cases "write_json_fields E now d (status c)")
      show ?thesis
      proof (cases r)
        case (Inl e)
        with Inr d w have "snd (parse_status_json E now line c) = c\<lparr> status := st \<rparr>"
          by (simp add: parse_status_json_def snd_except_json)
        then show ?thesis by (simp add: p new_events_def)
      next
        case (Inr u)
        let ?c1 = "c\<lparr> status := st \<rparr>"
        let ?r = "and_then (fire_callback (on_status_update c) (StatusUpdate st) ?c1) check_state_change"
        have s: "snd (parse_status_json E now line c) = snd ?r"
          using \<open>json_loads E line = Inr v\<close> d w Inr
          by (simp add: parse_status_json_def snd_except_json Let_def get_status_def)
        have st: "get_status (snd ?r) = st"
          using dispatch_then_check_status [of "on_status_update c" "StatusUpdate st" ?c1]
          by (simp add: get_status_def)
        from dispatch_then_check_trace [of "on_status_update c" "StatusUpdate st" ?c1]
             change_events_cases [of ?c1]
        have "new_events c (snd ?r) = deliver (on_status_update c) (StatusUpdate st)
            \<or> new_events c (snd ?r) = deliver (on_status_update c) (StatusUpdate st)
                 @ deliver (on_state_change c) (StateChange (previous_state c) (state st))"
          by (auto simp: new_events_def)
        then show ?thesis unfolding p s st by blast
      qed
    qed
  qed
qed

lemma error_line_events:
  assumes "startswith line ''ERROR:''"
  shows "state (get_status (snd (parse_line E now line c))) = ERROR
       \<and> error_reason (get_status (snd (parse_line E now line c))) = drop 6 line
       \<and> (new_events c (snd (parse_line E now line c)) = deliver (on_error c) (ErrorEvent (drop 6 line))
          \<or> new_events c (snd (parse_line E now line c))
              = deliver (on_error c) (ErrorEvent (drop 6 line))
                @ deliver (on_state_change c) (StateChange (previous_state c) ERROR))"
proof -
  let ?c1 = "c\<lparr> status := (status c)\<lparr> state := ERROR, error_reason := drop 6 line \<rparr> \<rparr>"
  let ?r = "and_then (fire_callback (on_error c) (ErrorEvent (drop 6 line)) ?c1) check_state_change"
  have p: "parse_line E now line c = ?r"
    using assms startswith_brace [OF assms] by (simp add: parse_line_def Let_def)
  have st: "get_status (snd ?r) = (status c)\<lparr> state := ERROR, error_reason := drop 6 line \<rparr>"
    using dispatch_then_check_status [of "on_error c" "ErrorEvent (drop 6 line)" ?c1]
    by (simp add: get_status_def)
  from dispatch_then_check_trace [of "on_error c" "ErrorEvent (drop 6 line)" ?c1]
       change_events_cases [of ?c1]
  have "new_events c (snd ?r) = deliver (on_error c) (ErrorEvent (drop 6 line))
      \<or> new_events c (snd ?r) = deliver (on_error c) (ErrorEvent (drop 6 line))
           @ deliver (on_state_change c) (StateChange (previous_state c) ERROR)"
    by (auto simp: new_events_def)
  then show ?thesis unfolding p st by simp
qed

text \<open>Once the stop flag is set, the watchdog leaves its loop at its next check;
  \<^verbatim>\<open>disconnect()\<close> sets the flag.\<close>

lemma watchdog_stopped:
  "stop_event c \<Longrightarrow> watchdog_loop ws c = (Exited, c)"
  by (cases ws) simp_all

lemma stop_event_disconnect: "stop_event (disconnect c)"
  by (simp add: disconnect_def Let_def split: option.splits)

text \<open>
  For lines on which \<^verbatim>\<open>_parse_line\<close> returns, the state-changed calls are those that
  the reported states call for, and the observed state and the state of the record end as
  the last state reported.
\<close>

lemma processed_lines_state_changes:
  assumes "\<not> stop_event c" and "all_processed E ls c"
  shows "filter is_state_change (new_events c (snd (reader_loop E (as_reads ls) c)))
           = expected_changes (on_state_change c) (previous_state c) (observed_states E ls)
       \<and> previous_state (snd (reader_loop E (as_reads ls) c))
           = last (previous_state c # observed_states E ls)
       \<and> state (get_status (snd (reader_loop E (as_reads ls) c)))
           = last (state (get_status c) # observed_states E ls)
       \<and> fst (reader_loop E (as_reads ls) c) = Running"
proof -
  from reader_loop_processed [OF assms] obtain evs where
    "trace (snd (reader_loop E (as_reads ls) c)) = trace c @ evs"
    "filter is_state_change evs
       = expected_changes (on_state_change c) (previous_state c) (observed_states E ls)"
    by blast
  then have "filter is_state_change (new_events c (snd (reader_loop E (as_reads ls) c)))
           = expected_changes (on_state_change c) (previous_state c) (observed_states E ls)"
    by (simp add: new_events_def)
  with reader_loop_processed [OF assms] show ?thesis by (simp add: get_status_def)
qed

lemma processed_lines_example:
  "\<not> stop_event session \<and> all_processed flat_env demo_lines session
   \<and> observed_states flat_env demo_lines = [IDLE, IDLE, RUNNING, RUNNING, ERROR]
   \<and> filter is_state_change (new_events session (snd (reader_loop flat_env (as_reads demo_lines) session)))
        = [StateChange DISCONNECTED IDLE, StateChange IDLE RUNNING, StateChange RUNNING ERROR]
   \<and> previous_state (snd (reader_loop flat_env (as_reads demo_lines) session)) = ERROR"
proof -
  have a: "\<not> stop_event session" by code_simp
  have b: "all_processed flat_env demo_lines session" by code_simp
  have o: "observed_states flat_env demo_lines = [IDLE, IDLE, RUNNING, RUNNING, ERROR]" by code_simp
  have e: "expected_changes (on_state_change session) (previous_state session)
             [IDLE, IDLE, RUNNING, RUNNING, ERROR]
           = [StateChange DISCONNECTED IDLE, StateChange IDLE RUNNING, StateChange RUNNING ERROR]"
    by code_simp
  from processed_lines_state_changes [OF a b] a b o e
  show ?thesis by simp
qed

text \<open>
  For a packet whose integer keys, where present, convert under \<^verbatim>\<open>int\<close>, each field
  is the default when its key is absent and the converted value otherwise; the status line
  of the scenario is such a packet.
\<close>

lemma json_fields_when_conversions_succeed:
  assumes "startswith line ''{''" and "json_loads E line = Inr (PDict d)"
    and "\<forall>k \<in> set [''currentRPM'', ''targetRPM'', ''pwm'', ''remainingMs''].
           \<exists>n. py_int E (dict_get d k (PInt 0)) = Inr n"
  shows "let s = get_status (snd (parse_line E now line c)) in
       (map_of d ''state'' = None \<longrightarrow> state s = IDLE)
     \<and> (\<forall>v. map_of d ''state'' = Some v \<longrightarrow> state_of_pyval v = None \<longrightarrow> state s = IDLE)
     \<and> (\<forall>v x. map_of d ''state'' = Some v \<longrightarrow> state_of_pyval v = Some x \<longrightarrow> state s = x)
     \<and> (map_of d ''currentRPM'' = None \<longrightarrow> current_rpm s = 0)
     \<and> (\<forall>v. map_of d ''currentRPM'' = Some v \<longrightarrow> py_int E v = Inr (current_rpm s))
     \<and> (map_of d ''targetRPM'' = None \<longrightarrow> target_rpm s = 0)
     \<and> (\<forall>v. map_of d ''targetRPM'' = Some v \<longrightarrow> py_int E v = Inr (target_rpm s))
     \<and> (map_of d ''pwm'' = None \<longrightarrow> pwm s = 0)
     \<and> (\<forall>v. map_of d ''pwm'' = Some v \<longrightarrow> py_int E v = Inr (pwm s))
     \<and> (map_of d ''remainingMs'' = None \<longrightarrow> remaining_ms s = 0)
     \<and> (\<forall>v. map_of d ''remainingMs'' = Some v \<longrightarrow> py_int E v = Inr (remaining_ms s))
     \<and> (map_of d ''lidClosed'' = None \<longrightarrow> \<not> lid_closed s)
     \<and> (\<forall>v. map_of d ''lidClosed'' = Some v \<longrightarrow> lid_closed s = py_bool v)
     \<and> (map_of d ''level'' = None \<longrightarrow> \<not> level s)
     \<and> (\<forall>v. map_of d ''level'' = Some v \<longrightarrow> level s = py_bool v)
     \<and> (map_of d ''running'' = None \<longrightarrow> \<not> running s)
     \<and> (\<forall>v. map_of d ''running'' = Some v \<longrightarrow> running s = py_bool v)
     \<and> remaining_sec s = remaining_ms s div 1000
     \<and> error_reason s = error_reason (get_status c)
     \<and> last_updated s = now"
proof -
  from assms(3) obtain n1 n2 n3 n4 where
    n: "py_int E (dict_get d ''currentRPM'' (PInt 0)) = Inr n1"
       "py_int E (dict_get d ''targetRPM'' (PInt 0)) = Inr n2"
       "py_int E (dict_get d ''pwm'' (PInt 0)) = Inr n3"
       "py_int E (dict_get d ''remainingMs'' (PInt 0)) = Inr n4"
    by auto
  have s: "get_status (snd (parse_line E now line c)) =
        (status c)\<lparr> state := json_state d, current_rpm := n1, target_rpm := n2, pwm := n3,
                    lid_closed := py_bool (dict_get d ''lidClosed'' (PBool False)),
                    level := py_bool (dict_get d ''level'' (PBool False)),
                    running := py_bool (dict_get d ''running'' (PBool False)),
                    remaining_ms := n4, last_updated := now \<rparr>"
    using assms(1) parse_status_json_status [OF assms(2), of now c] n
    by (simp add: parse_line_def get_status_def write_json_fields_def Let_def)
  show ?thesis
    unfolding s Let_def
    by (intro conjI allI impI)
       (use n in \<open>simp_all add: dict_get_def json_state_absent json_state_present
                    remaining_sec_def get_status_def\<close>)
qed

lemma scenario_line_fields:
  "startswith running_line ''{''
   \<and> json_loads flat_env running_line
       = Inr (PDict [(''remainingMs'', PInt 12000), (''running'', PBool True), (''level'', PBool True),
                     (''lidClosed'', PBool True), (''targetRPM'', PInt 1000), (''currentRPM'', PInt 850),
                     (''state'', PStr ''RUNNING'')])
   \<and> state (get_status (snd (parse_line flat_env 7 running_line session))) = RUNNING
   \<and> current_rpm (get_status (snd (parse_line flat_env 7 running_line session))) = 850
   \<and> target_rpm (get_status (snd (parse_line flat_env 7 running_line session))) = 1000
   \<and> pwm (get_status (snd (parse_line flat_env 7 running_line session))) = 0
   \<and> lid_closed (get_status (snd (parse_line flat_env 7 running_line session)))
   \<and> level (get_status (snd (parse_line flat_env 7 running_line session)))
   \<and> running (get_status (snd (parse_line flat_env 7 running_line session)))
   \<and> remaining_ms (get_status (snd (parse_line flat_env 7 running_line session))) = 12000
   \<and> remaining_sec (get_status (snd (parse_line flat_env 7 running_line session))) = 12"
proof -
  let ?d = "[(''remainingMs'', PInt 12000), (''running'', PBool True), (''level'', PBool True),
             (''lidClosed'', PBool True), (''targetRPM'', PInt 1000), (''currentRPM'', PInt 850),
             (''state'', PStr ''RUNNING'')]"
  have a: "startswith running_line ''{''" by code_simp
  have b: "json_loads flat_env running_line = Inr (PDict ?d)" by code_simp
  have c: "\<forall>k \<in> set [''currentRPM'', ''targetRPM'', ''pwm'', ''remainingMs''].
             \<exists>n. py_int flat_env (dict_get ?d k (PInt 0)) = Inr n"
    by (simp add: dict_get_def)
  from json_fields_when_conversions_succeed [OF a b c, of 7 session] a b
  show ?thesis
    by (simp add: Let_def state_of_string_def)
qed

section \<open>The claims\<close>

text \<open>
  C1 (as amended). \<^verbatim>\<open>disconnect()\<close> sets the state of the status record to
  \<open>DISCONNECTED\<close> and leaves every other field as it was: a \<^verbatim>\<open>get_status()\<close> after it
  is the one before it with the state replaced. The record is not reset.
\<close>

theorem disconnect_keeps_fields:
  "get_status (disconnect c) = (get_status c)\<lparr> state := DISCONNECTED \<rparr>"
  by (simp add: disconnect_def get_status_def Let_def split: option.splits)

text \<open>
  C1 as stated fails: after the status line of the scenario, a disconnect leaves
  \<open>current_rpm\<close> at 850, where a new record has 0.
\<close>

theorem disconnect_reset_counterexample:
  "current_rpm (get_status (disconnect (snd (parse_line flat_env 7 running_line session)))) = 850
   \<and> current_rpm (new_status 8) = 0"
  by code_simp

text \<open>
  C2. A line's field writes should show as a whole or not at all. The code does not keep
  to that: the assignments of a JSON packet are made one after the other, and an
  \<^verbatim>\<open>int(...)\<close> that raises (here on \<^verbatim>\<open>null\<close>, a \<^verbatim>\<open>TypeError\<close>, which the
  \<^verbatim>\<open>except\<close> clause of \<^verbatim>\<open>_parse_status_json\<close> does not name) leaves the fields written
  before it. After the status line of the scenario, the line with \<^verbatim>\<open>"currentRPM":null\<close>
  raises out of \<^verbatim>\<open>_parse_line\<close> and leaves a record whose state is \<open>IDLE\<close> while
  \<open>current_rpm\<close>, \<open>target_rpm\<close> and \<open>running\<close> are those of the packet before.
\<close>

theorem partial_packet_write:
  "fst (parse_line flat_env 9 null_line (snd (parse_line flat_env 7 running_line session)))
     = Inl TypeError
   \<and> get_status (snd (parse_line flat_env 7 running_line session))
     = \<lparr> state = RUNNING, current_rpm = 850, target_rpm = 1000, pwm = 0,
         lid_closed = True, level = True, running = True, remaining_ms = 12000,
         error_reason = [], last_updated = 7 \<rparr>
   \<and> get_status (snd (parse_line flat_env 9 null_line (snd (parse_line flat_env 7 running_line session))))
     = \<lparr> state = IDLE, current_rpm = 850, target_rpm = 1000, pwm = 0,
         lid_closed = True, level = True, running = True, remaining_ms = 12000,
         error_reason = [], last_updated = 7 \<rparr>"
  by code_simp

text \<open>
  C3 (as amended). When a read raises \<^verbatim>\<open>SerialException\<close> while the stop flag is clear,
  the reader loop ends (it leaves the loop, or an exception of the error observer ends the
  thread); the error observer, if there is one, is called exactly once, with
  \<open>SERIAL_DISCONNECTED\<close>, and no other observer is called; the state is \<open>DISCONNECTED\<close>
  and the link is closed. The watchdog loop does not end by that: the stop flag stays
  clear, and for every number of further wake-ups the loop is still running, having sent
  nothing. It ends when \<^verbatim>\<open>disconnect()\<close> is called: that sets the stop flag, and with
  the flag set the watchdog leaves its loop at its next check.
\<close>

theorem reader_io_failure:
  assumes "\<not> stop_event c"
  shows "(fst (reader_loop E (IOFailure # rs) c) = Exited
            \<or> (\<exists>e. fst (reader_loop E (IOFailure # rs) c) = Died e))
       \<and> new_events c (snd (reader_loop E (IOFailure # rs) c))
           = deliver (on_error c) (ErrorEvent ''SERIAL_DISCONNECTED'')
       \<and> state (get_status (snd (reader_loop E (IOFailure # rs) c))) = DISCONNECTED
       \<and> \<not> is_connected (snd (reader_loop E (IOFailure # rs) c))
       \<and> (\<forall>ws. watchdog_loop ws (snd (reader_loop E (IOFailure # rs) c))
                  = (Running, snd (reader_loop E (IOFailure # rs) c)))
       \<and> stop_event (disconnect (snd (reader_loop E (IOFailure # rs) c)))
       \<and> (\<forall>ws. watchdog_loop ws (disconnect (snd (reader_loop E (IOFailure # rs) c)))
                  = (Exited, disconnect (snd (reader_loop E (IOFailure # rs) c))))"
proof -
  let ?c' = "snd (reader_loop E (IOFailure # rs) c)"
  have r: "reader_loop E (IOFailure # rs) c = after_disconnect (handle_disconnect c)"
    using assms by simp
  have s: "?c' = snd (handle_disconnect c)"
    unfolding r by (cases "handle_disconnect c") (auto simp: after_disconnect_def split: sum.splits)
  have 1: "fst (reader_loop E (IOFailure # rs) c) = Exited
            \<or> (\<exists>e. fst (reader_loop E (IOFailure # rs) c) = Died e)"
    unfolding r by (cases "handle_disconnect c") (auto simp: after_disconnect_def split: sum.splits)
  have 2: "new_events c ?c' = deliver (on_error c) (ErrorEvent ''SERIAL_DISCONNECTED'')"
    unfolding s handle_disconnect_snd by (simp add: new_events_def)
  have 3: "state (get_status ?c') = DISCONNECTED"
    unfolding s handle_disconnect_snd by (simp add: get_status_def)
  have 4: "\<not> is_connected ?c'"
    unfolding s handle_disconnect_snd
    by (cases "serial c") (simp_all add: is_connected_def close_def)
  have 5: "\<not> stop_event ?c'"
    unfolding s handle_disconnect_snd using assms by simp
  have 6: "stop_event (disconnect ?c')" by (rule stop_event_disconnect)
  from 1 2 3 4 6 watchdog_idle [OF 5 4] watchdog_stopped [OF 6] show ?thesis by blast
qed

theorem reader_io_failure_witness:
  "\<not> stop_event session
   \<and> fst (reader_loop flat_env [IOFailure] session) = Exited
   \<and> new_events session (snd (reader_loop flat_env [IOFailure] session))
        = [ErrorEvent ''SERIAL_DISCONNECTED'']
   \<and> state (get_status (snd (reader_loop flat_env [IOFailure] session))) = DISCONNECTED
   \<and> \<not> is_connected (snd (reader_loop flat_env [IOFailure] session))
   \<and> fst (watchdog_loop [None, Some SerialException] (snd (reader_loop flat_env [IOFailure] session))) = Running
   \<and> fst (watchdog_loop [None] (disconnect (snd (reader_loop flat_env [IOFailure] session)))) = Exited"
proof -
  have a: "\<not> stop_event session" by code_simp
  have b: "fst (reader_loop flat_env [IOFailure] session) = Exited" by code_simp
  have d: "deliver (on_error session) (ErrorEvent ''SERIAL_DISCONNECTED'') = [ErrorEvent ''SERIAL_DISCONNECTED'']"
    by code_simp
  from reader_io_failure [OF a, of flat_env "[]"] a b d show ?thesis by simp
qed

text \<open>
  C3 as stated fails: after the failed read in the running session the reader has left its
  loop, and the watchdog is still in its loop three wake-ups later, the stop flag clear.
\<close>

theorem watchdog_keeps_running_counterexample:
  "fst (reader_loop flat_env [IOFailure] session) = Exited
   \<and> fst (watchdog_loop [None, None, None] (snd (reader_loop flat_env [IOFailure] session))) = Running
   \<and> stop_event (snd (reader_loop flat_env [IOFailure] session)) = False"
  by code_simp

text \<open>
  C4. A state-changed call should be made for every line whose reported state differs from
  the state observed before it. The code misses that when a packet's \<^verbatim>\<open>int(...)\<close>
  raises: the state is written, the exception leaves \<^verbatim>\<open>_parse_status_json\<close> before
  \<^verbatim>\<open>_check_state_change\<close> is reached, and \<^verbatim>\<open>_previous_state\<close> stays behind. In the
  run of three lines below the lines report \<open>RUNNING\<close>, \<open>IDLE\<close>, \<open>RAMPING_DOWN\<close>, and
  after the second line the record holds \<open>IDLE\<close> while the observed state is still
  \<open>RUNNING\<close>. Three calls are called for; two are made, and the second carries an old
  state that the record had left a line earlier.
\<close>

theorem skipped_transition_after_failed_packet:
  "observed_states flat_env broken_run = [RUNNING, IDLE, RAMPING_DOWN]
   \<and> fst (parse_line flat_env 2 null_line (snd (parse_line flat_env 1 running_line session)))
       = Inl TypeError
   \<and> state (get_status (snd (reader_loop flat_env (as_reads (take 2 broken_run)) session))) = IDLE
   \<and> previous_state (snd (reader_loop flat_env (as_reads (take 2 broken_run)) session)) = RUNNING
   \<and> filter is_state_change (new_events session (snd (reader_loop flat_env (as_reads broken_run) session)))
       = [StateChange DISCONNECTED RUNNING, StateChange RUNNING RAMPING_DOWN]
   \<and> expected_changes (on_state_change session) (previous_state session)
         (observed_states flat_env broken_run)
       = [StateChange DISCONNECTED RUNNING, StateChange RUNNING IDLE, StateChange IDLE RAMPING_DOWN]"
  by code_simp

text \<open>
  C5 (as amended). A line that starts with \<open>{\<close> and on which \<^verbatim>\<open>json.loads\<close> raises
  \<^verbatim>\<open>JSONDecodeError\<close> is dropped: \<^verbatim>\<open>_parse_line\<close> returns without an exception and
  the controller is as before, so the status record (and every \<^verbatim>\<open>get_status()\<close>) is
  unchanged, the link is as it was and no observer was called.
\<close>

theorem malformed_json_is_dropped:
  assumes "startswith line ''{''" and "json_loads E line = Inl JSONDecodeError"
  shows "parse_line E now line c = (Inr (), c)
       \<and> get_status (snd (parse_line E now line c)) = get_status c
       \<and> serial (snd (parse_line E now line c)) = serial c"
  using assms by (simp add: parse_line_def parse_status_json_def except_json_def)

theorem malformed_json_is_dropped_witness:
  "startswith cut_line ''{''
   \<and> json_loads flat_env cut_line = Inl JSONDecodeError
   \<and> parse_line flat_env 3 cut_line session = (Inr (), session)
   \<and> is_connected (snd (parse_line flat_env 3 cut_line session))"
proof -
  have a: "startswith cut_line ''{''" by code_simp
  have b: "json_loads flat_env cut_line = Inl JSONDecodeError" by code_simp
  have c: "is_connected session" by code_simp
  from malformed_json_is_dropped [OF a b, of 3 session] a b c show ?thesis by simp
qed

text \<open>
  C5 as stated fails: what is dropped is decided by \<^verbatim>\<open>json.loads\<close>, not by the JSON
  grammar. The line below holds the literal \<^verbatim>\<open>NaN\<close>; the grammar rejects it,
  \<^verbatim>\<open>json.loads\<close> reads it, and the line is applied as a status packet: the record
  changes.
\<close>

theorem accepted_nan_counterexample:
  "startswith nan_line ''{''
   \<and> flat_json_strict nan_line = Inl JSONDecodeError
   \<and> json_loads flat_env nan_line = Inr (PDict [(''lidClosed'', PFloat NaN), (''state'', PStr ''RUNNING'')])
   \<and> get_status session = new_status 0
   \<and> get_status (snd (parse_line flat_env 9 nan_line session))
       = \<lparr> state = RUNNING, current_rpm = 0, target_rpm = 0, pwm = 0,
           lid_closed = True, level = False, running = False, remaining_ms = 0,
           error_reason = [], last_updated = 9 \<rparr>"
  by code_simp

text \<open>
  C6. A key that is absent from a status packet should give its field the default. The
  code misses that when an \<^verbatim>\<open>int(...)\<close> before the field raises: the assignments after
  it are not made. After the status line of the scenario, the packet with only
  \<^verbatim>\<open>"currentRPM":null\<close> sets the state to its default \<open>IDLE\<close> and then raises; the
  fields of the absent keys \<^verbatim>\<open>targetRPM\<close>, \<^verbatim>\<open>lidClosed\<close>, \<^verbatim>\<open>level\<close>,
  \<^verbatim>\<open>running\<close> and \<^verbatim>\<open>remainingMs\<close> keep 1000, true, true, true and 12000 in place of
  0 and false.
\<close>

theorem defaults_skipped_after_failed_conversion:
  "json_loads flat_env bare_null_line = Inr (PDict [(''currentRPM'', PNone)])
   \<and> fst (parse_line flat_env 9 bare_null_line (snd (parse_line flat_env 7 running_line session)))
       = Inl TypeError
   \<and> get_status (snd (parse_line flat_env 9 bare_null_line (snd (parse_line flat_env 7 running_line session))))
       = \<lparr> state = IDLE, current_rpm = 850, target_rpm = 1000, pwm = 0,
           lid_closed = True, level = True, running = True, remaining_ms = 12000,
           error_reason = [], last_updated = 7 \<rparr>"
  by code_simp

text \<open>
  C7. While the controller is not connected (no port object, or a closed one), \<^verbatim>\<open>_send\<close>
  and each command method return \<open>False\<close> without an exception and leave the controller,
  and with it the list of writes on the link, as it was. This holds whatever a write
  would have done (\<open>w\<close>).
\<close>

theorem send_while_disconnected:
  assumes "\<not> is_connected c"
  shows "send w command c = (Inr False, c)
       \<and> start w rpm duration_sec c = (Inr False, c)
       \<and> stop w c = (Inr False, c)
       \<and> emergency_stop w c = (Inr False, c)
       \<and> clear_error w c = (Inr False, c)
       \<and> request_status w c = (Inr False, c)
       \<and> ping w c = (Inr False, c)"
  using assms
  by (simp add: send_def start_def stop_def emergency_stop_def clear_error_def
        request_status_def ping_def)

theorem send_while_disconnected_witness:
  "\<not> is_connected (disconnect session)
   \<and> send (Some SerialException) ''STOP'' (disconnect session) = (Inr False, disconnect session)
   \<and> start None 1000 30 fresh = (Inr False, fresh)"
proof -
  have a: "\<not> is_connected (disconnect session)" by code_simp
  have b: "\<not> is_connected fresh" by code_simp
  from send_while_disconnected [OF a, of "Some SerialException" "''STOP''"]
       send_while_disconnected [OF b, of None _ 1000 30] a
  show ?thesis by simp
qed

text \<open>
  C8. \<^verbatim>\<open>disconnect()\<close> is idempotent: a second call leaves the controller exactly as the
  first did, with the state \<open>DISCONNECTED\<close> and the link not open; the second call does not
  call \<^verbatim>\<open>close()\<close> again (the count of close calls is that of the first).
\<close>

theorem disconnect_idempotent:
  "disconnect (disconnect c) = disconnect c
   \<and> state (get_status (disconnect c)) = DISCONNECTED
   \<and> \<not> is_connected (disconnect c)
   \<and> map_option close_calls (serial (disconnect (disconnect c)))
       = map_option close_calls (serial (disconnect c))"
proof (cases "serial c")
  case None
  then show ?thesis
    by (simp add: disconnect_def is_connected_def get_status_def Let_def)
next
  case (Some l)
  then show ?thesis
    by (cases "is_open l")
       (simp_all add: disconnect_def close_def is_connected_def get_status_def Let_def)
qed

theorem disconnect_idempotent_witness:
  "disconnect (disconnect session) = disconnect session
   \<and> map_option close_calls (serial (disconnect (disconnect session))) = Some 1"
proof -
  have "map_option close_calls (serial (disconnect session)) = Some 1" by code_simp
  with disconnect_idempotent [of session] show ?thesis by simp
qed




text \<open>
  C10. The observer calls that one line makes, in order. For a line that starts with \<open>{\<close>:
  none, or the status-update call (if there is such an observer), or the status-update call
  followed by the state-changed call. For an \<^verbatim>\<open>ERROR:\<close> line: the error call with the
  reason, or the error call followed by the state-changed call. So a state-changed call
  of a line is never made before the status-update or error call of that line.
\<close>

theorem line_event_before_state_change:
  "(startswith line ''{'' \<longrightarrow>
      new_events c (snd (parse_line E now line c)) = []
    \<or> new_events c (snd (parse_line E now line c))
        = deliver (on_status_update c) (StatusUpdate (get_status (snd (parse_line E now line c))))
    \<or> new_events c (snd (parse_line E now line c))
        = deliver (on_status_update c) (StatusUpdate (get_status (snd (parse_line E now line c))))
          @ deliver (on_state_change c)
              (StateChange (previous_state c) (state (get_status (snd (parse_line E now line c))))))
   \<and> (startswith line ''ERROR:'' \<longrightarrow>
      new_events c (snd (parse_line E now line c)) = deliver (on_error c) (ErrorEvent (drop 6 line))
    \<or> new_events c (snd (parse_line E now line c))
        = deliver (on_error c) (ErrorEvent (drop 6 line))
          @ deliver (on_state_change c) (StateChange (previous_state c) ERROR))"
  using json_line_events [of line c E now] error_line_events [of line E now c] by blast

theorem line_event_before_state_change_witness:
  "startswith running_line ''{''
   \<and> new_events session (snd (parse_line flat_env 7 running_line session))
       = [StatusUpdate \<lparr> state = RUNNING, current_rpm = 850, target_rpm = 1000, pwm = 0,
                         lid_closed = True, level = True, running = True, remaining_ms = 12000,
                         error_reason = [], last_updated = 7 \<rparr>,
          StateChange DISCONNECTED RUNNING]
   \<and> startswith ''ERROR:LID_OPEN'' ''ERROR:''
   \<and> new_events session (snd (parse_line flat_env 8 ''ERROR:LID_OPEN'' session))
       = [ErrorEvent ''LID_OPEN'', StateChange DISCONNECTED ERROR]"
proof -
  have a: "startswith running_line ''{''" by code_simp
  have b: "startswith ''ERROR:LID_OPEN'' ''ERROR:''" by code_simp
  have c: "new_events session (snd (parse_line flat_env 7 running_line session))
       = [StatusUpdate \<lparr> state = RUNNING, current_rpm = 850, target_rpm = 1000, pwm = 0,
                         lid_closed = True, level = True, running = True, remaining_ms = 12000,
                         error_reason = [], last_updated = 7 \<rparr>,
          StateChange DISCONNECTED RUNNING]" by code_simp
  have d: "new_events session (snd (parse_line flat_env 8 ''ERROR:LID_OPEN'' session))
       = [ErrorEvent ''LID_OPEN'', StateChange DISCONNECTED ERROR]" by code_simp
  from line_event_before_state_change [of running_line session flat_env 7]
       line_event_before_state_change [of "''ERROR:LID_OPEN''" session flat_env 8] a b c d
  show ?thesis by simp
qed

end
